theory Spec2Isabelle
  imports Main
begin

section \<open>Data model of \<open>pkg/api/agentPoolOnlyApi/v20170831/validate.go\<close>\<close>

text \<open>
  A Go \<open>error\<close> built by \<open>errors.New\<close> or \<open>errors.Errorf\<close> is modelled by its
  message; a function of result type \<open>error\<close> returns \<open>error option\<close>, with \<open>None\<close> for
  Go's \<open>nil\<close>. Go strings are byte sequences, as HOL's \<open>string\<close> is.

  Two statements of the file can panic at run time: an index expression on a slice and
  a type assertion on an interface value. A function that contains one of them returns
  an \<open>outcome\<close>: \<open>Inl\<close> for the panic, \<open>Inr\<close> for the value it returns otherwise.
\<close>

datatype error = Error string

datatype panic = IndexOutOfRange | TypeAssertionFailed

type_synonym outcome = "panic + error option"

text \<open>
  The struct types are declared in \<open>types.go\<close>; the records below have the fields
  that \<open>validate.go\<close> reads. All struct pointers are taken to be non-nil, except
  \<open>Properties.LinuxProfile\<close>, which the code tests against \<open>nil\<close> itself.
\<close>

record PublicKey =
  KeyData :: string

record SSH_struct =
  PublicKeys :: "PublicKey list"

record LinuxProfile =
  SSH :: SSH_struct

record AgentPoolProfile =
  Name :: string
  VnetSubnetID :: string

record Properties =
  DNSPrefix :: string
  AgentPoolProfiles :: "AgentPoolProfile list"
  LinuxProfile :: "LinuxProfile option"

text \<open>
  One element of \<open>validator.ValidationErrors\<close>: the namespace of the violating field
  and its value, an \<open>interface{}\<close> whose dynamic type is part of the value.
\<close>

datatype go_value = IntV int | StringV string | BoolV bool | NilV

record FieldError =
  Namespace :: string
  Value :: go_value

text \<open>
  What \<open>validate.go\<close> takes from outside the file: the named constants of the
  package, the rendering of a violation list that \<open>%+v\<close> prints, the struct validator
  (\<open>None\<close> for \<open>nil\<close>, otherwise the violations in order; on a non-nil struct pointer
  its error is always a \<open>ValidationErrors\<close>), the DNS-prefix check and the decomposer
  of a subnet identifier (subscription, resource group, network, subnet).
\<close>

record deps =
  MinAgentCount :: int
  MaxAgentCount :: int
  MinDiskSizeGB :: int
  MaxDiskSizeGB :: int
  ManagedDisks :: string
  ValidationErrors_Error :: "FieldError list \<Rightarrow> string"
  validate_Struct :: "Properties \<Rightarrow> FieldError list option"
  ValidateDNSPrefix :: "string \<Rightarrow> error option"
  GetVNETSubnetIDComponents :: "string \<Rightarrow> error + (string \<times> string \<times> string \<times> string)"

section \<open>Uniqueness of profile names\<close>

text \<open>
  \<open>validateUniqueProfileNames\<close>: the loop over the profiles, with the map
  \<open>profileNames\<close> as its state. The message quotes the name between two \<open>'\<close>.
\<close>

definition quoted :: "string \<Rightarrow> string" where
  "quoted s = CHR 0x27 # s @ [CHR 0x27]"

definition duplicateNameError :: "string \<Rightarrow> error" where
  "duplicateNameError n =
     Error (''profile name '' @ quoted n @
            '' already exists, profile names must be unique across pools'')"

fun uniqueLoop :: "(string \<rightharpoonup> bool) \<Rightarrow> AgentPoolProfile list \<Rightarrow> error option" where
  "uniqueLoop profileNames [] = None"
| "uniqueLoop profileNames (profile # rest) =
     (case profileNames (Name profile) of
        Some _ \<Rightarrow> Some (duplicateNameError (Name profile))
      | None \<Rightarrow> uniqueLoop (profileNames(Name profile \<mapsto> True)) rest)"

definition validateUniqueProfileNames :: "AgentPoolProfile list \<Rightarrow> error option" where
  "validateUniqueProfileNames profiles = uniqueLoop Map.empty profiles"

section \<open>VNET consistency\<close>

text \<open>
  Modelled from the spec: \<open>IsCustomVNET\<close> is a method of \<open>AgentPoolProfile\<close> declared
  outside \<open>validate.go\<close>; the specification gives it as "non-empty \<open>vnetSubnetID\<close>
  means custom VNET".
\<close>

definition IsCustomVNET :: "AgentPoolProfile \<Rightarrow> bool" where
  "IsCustomVNET p = (0 < length (VnetSubnetID p))"

text \<open>
  The first loop of \<open>validateVNET\<close>, with \<open>customVNETCount\<close> and \<open>isCustomVNET\<close> as
  its state. The counter is a Go \<open>int\<close>; it never exceeds the length of the slice, so
  it does not wrap.
\<close>

fun countCustomVNET :: "AgentPoolProfile list \<Rightarrow> int \<times> bool \<Rightarrow> int \<times> bool" where
  "countCustomVNET [] st = st"
| "countCustomVNET (agentPool # rest) (customVNETCount, isCustomVNET) =
     (if IsCustomVNET agentPool
      then countCustomVNET rest (customVNETCount + 1, IsCustomVNET agentPool)
      else countCustomVNET rest (customVNETCount, isCustomVNET))"

text \<open>
  The second loop, with the three counting maps as its state. Reading a key that a Go
  map does not hold gives 0.
\<close>

record vnetMaps =
  subIDMap :: "string \<rightharpoonup> int"
  resourceGroupMap :: "string \<rightharpoonup> int"
  agentVNETMap :: "string \<rightharpoonup> int"

definition mapGet :: "(string \<rightharpoonup> int) \<Rightarrow> string \<Rightarrow> int" where
  "mapGet m k = (case m k of None \<Rightarrow> 0 | Some v \<Rightarrow> v)"

fun decomposeLoop :: "deps \<Rightarrow> AgentPoolProfile list \<Rightarrow> vnetMaps \<Rightarrow> error + vnetMaps" where
  "decomposeLoop d [] m = Inr m"
| "decomposeLoop d (agentPool # rest) m =
     (case GetVNETSubnetIDComponents d (VnetSubnetID agentPool) of
        Inl err \<Rightarrow> Inl err
      | Inr (agentSubID, agentRG, agentVNET, _) \<Rightarrow>
          decomposeLoop d rest
            (m\<lparr>subIDMap := (subIDMap m)(agentSubID \<mapsto> mapGet (subIDMap m) agentSubID + 1),
               resourceGroupMap :=
                 (resourceGroupMap m)(agentRG \<mapsto> mapGet (resourceGroupMap m) agentRG + 1),
               agentVNETMap :=
                 (agentVNETMap m)(agentVNET \<mapsto> mapGet (agentVNETMap m) agentVNET + 1)\<rparr>))"

definition emptyMaps :: vnetMaps where
  "emptyMaps = \<lparr>subIDMap = Map.empty, resourceGroupMap = Map.empty, agentVNETMap = Map.empty\<rparr>"

definition mixedVNETError :: error where
  "mixedVNETError =
     Error (''Multiple VNET Subnet configurations specified.  '' @
            ''Each agent pool profile must all specify a custom VNET Subnet, or none at all'')"

definition validateVNET :: "deps \<Rightarrow> Properties \<Rightarrow> error option" where
  "validateVNET d a =
     (case countCustomVNET (AgentPoolProfiles a) (0, False) of
        (customVNETCount, isCustomVNET) \<Rightarrow>
          if \<not> (customVNETCount = 0 \<or> customVNETCount = int (length (AgentPoolProfiles a)))
          then Some mixedVNETError
          else if isCustomVNET
          then (case decomposeLoop d (AgentPoolProfiles a) emptyMaps of
                  Inl err \<Rightarrow> Some err
                | Inr _ \<Rightarrow> None)
          else None)"

section \<open>Pool names\<close>

text \<open>
  \<open>validatePoolName\<close> compiles the pattern \<open>^([a-z][a-z0-9]{0,11})$\<close> and tests the
  length of what \<open>FindStringSubmatch\<close> returns. The pattern language needed is: the
  two anchors (in Go, without the \<open>m\<close> flag, \<open>^\<close> matches only at the beginning of
  the text and \<open>$\<close> only at its end), a character class given by its ranges,
  concatenation, bounded repetition \<open>{lo,hi}\<close> and a capture group. The pattern is a
  constant that compiles, so the branch that returns the error of \<open>regexp.Compile\<close>
  is never taken. Go matches code points where the model matches bytes; the classes of
  the pattern hold ASCII characters only and no byte of a longer UTF-8 sequence is one,
  so both accept the same strings.

  A matching state is the number of bytes before the current position and the text
  from that position on. \<open>rmatch r st\<close> lists the states after each way of matching
  \<open>r\<close> from \<open>st\<close>, the longer repetitions first.
\<close>

datatype regex =
    BeginText
  | EndText
  | CharClass "(char \<times> char) list"
  | Concat regex regex
  | Repeat regex nat nat
  | Group regex

fun inClass :: "(char \<times> char) list \<Rightarrow> char \<Rightarrow> bool" where
  "inClass [] c = False"
| "inClass ((lo, hi) # rs) c =
     ((of_char lo \<le> (of_char c :: nat) \<and> (of_char c :: nat) \<le> of_char hi) \<or> inClass rs c)"

fun repeatMatch :: "('s \<Rightarrow> 's list) \<Rightarrow> nat \<Rightarrow> nat \<Rightarrow> 's \<Rightarrow> 's list" where
  "repeatMatch m lo 0 st = (if lo = 0 then [st] else [])"
| "repeatMatch m lo (Suc hi) st =
     concat (map (repeatMatch m (lo - 1) hi) (m st)) @ (if lo = 0 then [st] else [])"

fun rmatch :: "regex \<Rightarrow> nat \<times> string \<Rightarrow> (nat \<times> string) list" where
  "rmatch BeginText (i, s) = (if i = 0 then [(i, s)] else [])"
| "rmatch EndText (i, s) = (if s = [] then [(i, s)] else [])"
| "rmatch (CharClass rs) (i, s) =
     (case s of [] \<Rightarrow> [] | c # cs \<Rightarrow> if inClass rs c then [(Suc i, cs)] else [])"
| "rmatch (Concat r1 r2) st = concat (map (rmatch r2) (rmatch r1 st))"
| "rmatch (Repeat r lo hi) st = repeatMatch (rmatch r) lo hi st"
| "rmatch (Group r) st = rmatch r st"

fun NumSubexp :: "regex \<Rightarrow> nat" where
  "NumSubexp (Concat r1 r2) = NumSubexp r1 + NumSubexp r2"
| "NumSubexp (Repeat r lo hi) = NumSubexp r"
| "NumSubexp (Group r) = Suc (NumSubexp r)"
| "NumSubexp r = 0"

text \<open>
  \<open>submatchCount re s\<close> is \<open>len(re.FindStringSubmatch(s))\<close>: the search tries every
  start position of the text; without a match the result is \<open>nil\<close>, of length 0, and
  with a match it has one entry for the match and one for each capture group.
\<close>

definition matchesAt :: "regex \<Rightarrow> string \<Rightarrow> nat \<Rightarrow> bool" where
  "matchesAt re s k = (rmatch re (k, drop k s) \<noteq> [])"

definition submatchCount :: "regex \<Rightarrow> string \<Rightarrow> nat" where
  "submatchCount re s =
     (if list_ex (matchesAt re s) [0..<Suc (length s)] then Suc (NumSubexp re) else 0)"

definition poolNameRegex :: regex where
  "poolNameRegex =
     Concat BeginText
       (Concat
          (Group (Concat (CharClass [(CHR ''a'', CHR ''z'')])
                         (Repeat (CharClass [(CHR ''a'', CHR ''z''), (CHR ''0'', CHR ''9'')]) 0 11)))
          EndText)"

definition poolNameError :: "string \<Rightarrow> error" where
  "poolNameError poolName =
     Error (''pool name '' @ quoted poolName @
            '' is invalid. A pool name must start with a lowercase letter, '' @
            ''have max length of 12, and only have characters a-z0-9'')"

definition validatePoolName :: "string \<Rightarrow> error option" where
  "validatePoolName poolName =
     (if submatchCount poolNameRegex poolName \<noteq> 2 then Some (poolNameError poolName)
      else None)"

definition AgentPoolProfile_Validate :: "AgentPoolProfile \<Rightarrow> error option" where
  "AgentPoolProfile_Validate a = validatePoolName (Name a)"

section \<open>Linux profile\<close>

text \<open>
  \<open>validate.Var(x, "required")\<close> of the validator library fails on a string exactly
  when it is the zero value, the empty string. \<open>PublicKeys[0]\<close> panics on an empty
  slice.
\<close>

definition Var_required_fails :: "string \<Rightarrow> bool" where
  "Var_required_fails s = (s = [])"

definition keyDataError :: error where
  "keyDataError = Error ''KeyData in LinuxProfile.SSH.PublicKeys cannot be empty string''"

definition LinuxProfile_Validate :: "LinuxProfile \<Rightarrow> outcome" where
  "LinuxProfile_Validate l =
     (case PublicKeys (SSH l) of
        [] \<Rightarrow> Inl IndexOutOfRange
      | key # _ \<Rightarrow>
          if Var_required_fails (KeyData key) then Inr (Some keyDataError) else Inr None)"

section \<open>Classification of the first violation\<close>

text \<open>\<open>strings.HasPrefix\<close> and \<open>strings.HasSuffix\<close>, as the Go library defines them.\<close>

definition HasPrefix :: "string \<Rightarrow> string \<Rightarrow> bool" where
  "HasPrefix s pre = (length pre \<le> length s \<and> take (length pre) s = pre)"

definition HasSuffix :: "string \<Rightarrow> string \<Rightarrow> bool" where
  "HasSuffix s suf = (length suf \<le> length s \<and> drop (length s - length suf) s = suf)"

text \<open>The verb \<open>%d\<close> on an integer: its decimal digits, after a \<open>-\<close> when negative.\<close>

definition digitChar :: "nat \<Rightarrow> char" where
  "digitChar n = ''0123456789'' ! n"

fun natDigits :: "nat \<Rightarrow> string" where
  "natDigits n =
     (if n < 10 then [digitChar n]
      else natDigits (n div 10) @ [digitChar (n mod 10)])"

declare natDigits.simps [simp del]

definition fmt_d :: "int \<Rightarrow> string" where
  "fmt_d i = (if i < 0 then CHR ''-'' # natDigits (nat (- i)) else natDigits (nat i))"

definition missingError :: "string \<Rightarrow> error" where
  "missingError ns = Error (''missing '' @ ns)"

definition countRangeError :: "deps \<Rightarrow> error" where
  "countRangeError d =
     Error (''AgentPoolProfile count needs to be in the range ['' @
            fmt_d (MinAgentCount d) @ '','' @ fmt_d (MaxAgentCount d) @ '']'')"

definition diskSizeError :: "deps \<Rightarrow> int \<Rightarrow> error" where
  "diskSizeError d v =
     Error (''Invalid os disk size of '' @ fmt_d v @
            '' specified.  The range of valid values are ['' @
            fmt_d (MinDiskSizeGB d) @ '', '' @ fmt_d (MaxDiskSizeGB d) @ '']'')"

definition storageProfileError :: "deps \<Rightarrow> string \<Rightarrow> error" where
  "storageProfileError d v =
     Error (''Unknown storageProfile '' @ quoted v @ ''. Must specify '' @ ManagedDisks d)"

definition notCaughtError :: "deps \<Rightarrow> string \<Rightarrow> FieldError list \<Rightarrow> error" where
  "notCaughtError d ns e =
     Error (''Namespace '' @ ns @ '' is not caught, '' @ ValidationErrors_Error d e)"

text \<open>
  \<open>handleValidationErrors\<close>: \<open>e[0]\<close> panics on an empty slice, and the two type
  assertions \<open>err.Value().(int)\<close> and \<open>err.Value().(string)\<close> panic when the dynamic
  type of the value is another one. The \<open>switch\<close> on \<open>ns\<close> tries its four cases in
  order; the inner \<open>switch\<close> tries its conditions in order; whatever leaves both
  without returning reaches the last \<open>return\<close>.
\<close>

definition handleValidationErrors :: "deps \<Rightarrow> FieldError list \<Rightarrow> outcome" where
  "handleValidationErrors d e =
     (case e of
        [] \<Rightarrow> Inl IndexOutOfRange
      | err # _ \<Rightarrow>
          (let ns = Namespace err in
           if ns = ''Properties.ServicePrincipalProfile.ClientID'' \<or>
              ns = ''Properties.ServicePrincipalProfile.Secret'' \<or>
              ns = ''Properties.WindowsProfile.AdminUsername'' \<or>
              ns = ''Properties.WindowsProfile.AdminPassword''
           then Inr (Some (missingError ns))
           else if HasPrefix ns ''Properties.AgentPoolProfiles''
           then (if HasSuffix ns ''.Name'' \<or> HasSuffix ns ''VMSize''
                 then Inr (Some (missingError ns))
                 else if HasSuffix ns ''.Count''
                 then Inr (Some (countRangeError d))
                 else if HasSuffix ns ''.OSDiskSizeGB''
                 then (case Value err of
                         IntV v \<Rightarrow> Inr (Some (diskSizeError d v))
                       | _ \<Rightarrow> Inl TypeAssertionFailed)
                 else if HasSuffix ns ''.StorageProfile''
                 then (case Value err of
                         StringV v \<Rightarrow> Inr (Some (storageProfileError d v))
                       | _ \<Rightarrow> Inl TypeAssertionFailed)
                 else Inr (Some (notCaughtError d ns e)))
           else Inr (Some (notCaughtError d ns e))))"

section \<open>The orchestrator\<close>

text \<open>The loop of \<open>Properties.Validate\<close> over the pools.\<close>

fun poolsLoop :: "AgentPoolProfile list \<Rightarrow> error option" where
  "poolsLoop [] = None"
| "poolsLoop (agentPoolProfile # rest) =
     (case AgentPoolProfile_Validate agentPoolProfile of
        Some e \<Rightarrow> Some e
      | None \<Rightarrow> poolsLoop rest)"

definition Properties_Validate :: "deps \<Rightarrow> Properties \<Rightarrow> outcome" where
  "Properties_Validate d a =
     (case validate_Struct d a of
        Some e \<Rightarrow> handleValidationErrors d e
      | None \<Rightarrow>
     (case ValidateDNSPrefix d (DNSPrefix a) of
        Some e \<Rightarrow> Inr (Some e)
      | None \<Rightarrow>
     (case validateUniqueProfileNames (AgentPoolProfiles a) of
        Some e \<Rightarrow> Inr (Some e)
      | None \<Rightarrow>
     (case poolsLoop (AgentPoolProfiles a) of
        Some e \<Rightarrow> Inr (Some e)
      | None \<Rightarrow>
     (case (case LinuxProfile a of
              None \<Rightarrow> Inr None
            | Some l \<Rightarrow> LinuxProfile_Validate l) of
        Inl p \<Rightarrow> Inl p
      | Inr (Some e) \<Rightarrow> Inr (Some e)
      | Inr None \<Rightarrow> Inr (validateVNET d a))))))"

section \<open>Notions of the specification\<close>

text \<open>
  The number of pools that declare a custom subnet, in the words of the specification:
  the pools with a non-empty \<open>vnetSubnetID\<close>.
\<close>

definition customCount :: "AgentPoolProfile list \<Rightarrow> nat" where
  "customCount ps = length (filter (\<lambda>p. VnetSubnetID p \<noteq> []) ps)"

text \<open>The error of the decomposer on one pool, and on the first pool where it fails.\<close>

definition decomposeFailure :: "deps \<Rightarrow> AgentPoolProfile \<Rightarrow> error option" where
  "decomposeFailure d p =
     (case GetVNETSubnetIDComponents d (VnetSubnetID p) of
        Inl err \<Rightarrow> Some err
      | Inr _ \<Rightarrow> None)"

definition firstDecomposeFailure :: "deps \<Rightarrow> AgentPoolProfile list \<Rightarrow> error option" where
  "firstDecomposeFailure d ps =
     (case find (\<lambda>p. decomposeFailure d p \<noteq> None) ps of
        None \<Rightarrow> None
      | Some p \<Rightarrow> decomposeFailure d p)"

text \<open>
  The naming policy in the words of the specification: a lowercase ASCII letter, then
  lowercase ASCII letters or digits, at most 12 characters in all.
\<close>

definition isLower :: "char \<Rightarrow> bool" where
  "isLower c = (97 \<le> (of_char c :: nat) \<and> (of_char c :: nat) \<le> 122)"

definition isDigit :: "char \<Rightarrow> bool" where
  "isDigit c = (48 \<le> (of_char c :: nat) \<and> (of_char c :: nat) \<le> 57)"

definition poolNameOK :: "string \<Rightarrow> bool" where
  "poolNameOK s =
     (case s of
        [] \<Rightarrow> False
      | c # cs \<Rightarrow> isLower c \<and> list_all (\<lambda>x. isLower x \<or> isDigit x) cs \<and> length s \<le> 12)"

text \<open>The namespaces of the classifier: the four credential fields and the pool path.\<close>

definition credentialNamespaces :: "string list" where
  "credentialNamespaces =
     [''Properties.ServicePrincipalProfile.ClientID'',
      ''Properties.ServicePrincipalProfile.Secret'',
      ''Properties.WindowsProfile.AdminUsername'',
      ''Properties.WindowsProfile.AdminPassword'']"

definition underPools :: "string \<Rightarrow> bool" where
  "underPools ns = HasPrefix ns ''Properties.AgentPoolProfiles''"

text \<open>
  The sequence of the orchestrator in the words of the specification: the outcomes of
  the six stages in order, the fourth stage being one name check per pool in collection
  order, and the first outcome among them that is not a success.
\<close>

definition stageOutcomes :: "deps \<Rightarrow> Properties \<Rightarrow> outcome list" where
  "stageOutcomes d a =
     [case validate_Struct d a of None \<Rightarrow> Inr None | Some e \<Rightarrow> handleValidationErrors d e,
      Inr (ValidateDNSPrefix d (DNSPrefix a)),
      Inr (validateUniqueProfileNames (AgentPoolProfiles a))] @
     map (\<lambda>p. Inr (validatePoolName (Name p))) (AgentPoolProfiles a) @
     [case LinuxProfile a of None \<Rightarrow> Inr None | Some l \<Rightarrow> LinuxProfile_Validate l,
      Inr (validateVNET d a)]"

fun firstFailure :: "outcome list \<Rightarrow> outcome" where
  "firstFailure [] = Inr None"
| "firstFailure (x # xs) = (if x = Inr None then firstFailure xs else x)"

section \<open>Sample inputs\<close>

text \<open>
  Concrete inputs on which the theorems below are instantiated. The decomposer and the
  rendering of violations are stand-ins for the external ones: \<open>sampleDecompose\<close>
  accepts the identifiers that begin with \<open>/subscriptions/\<close> and gives each
  identifier its own components, so that two pools with different identifiers disagree
  on subscription, resource group and network.
\<close>

definition sampleDecompose :: "string \<Rightarrow> error + (string \<times> string \<times> string \<times> string)" where
  "sampleDecompose s =
     (if HasPrefix s ''/subscriptions/'' then Inr (s, s, s, s)
      else Inl (Error (''cannot parse '' @ s)))"

definition sampleDeps :: deps where
  "sampleDeps =
     \<lparr>MinAgentCount = 1, MaxAgentCount = 100, MinDiskSizeGB = 30, MaxDiskSizeGB = 1023,
      ManagedDisks = ''ManagedDisks'',
      ValidationErrors_Error = (\<lambda>e. concat (map Namespace e)),
      validate_Struct = (\<lambda>a. None),
      ValidateDNSPrefix = (\<lambda>s. None),
      GetVNETSubnetIDComponents = sampleDecompose\<rparr>"

definition pool :: "string \<Rightarrow> string \<Rightarrow> AgentPoolProfile" where
  "pool n v = \<lparr>Name = n, VnetSubnetID = v\<rparr>"

definition props :: "AgentPoolProfile list \<Rightarrow> Properties" where
  "props ps = \<lparr>DNSPrefix = ''dns'', AgentPoolProfiles = ps, LinuxProfile = None\<rparr>"

definition dupPools :: "AgentPoolProfile list" where
  "dupPools =
     [pool ''zeta'' [], pool ''beta'' [], pool ''beta'' [], pool ''alpha'' [], pool ''alpha'' []]"

definition subnetID :: "string \<Rightarrow> string \<Rightarrow> string \<Rightarrow> string" where
  "subnetID sub rg vnet =
     ''/subscriptions/'' @ sub @ ''/resourceGroups/'' @ rg @
     ''/providers/Microsoft.Network/virtualNetworks/'' @ vnet @ ''/subnets/default''"

definition mixedPools :: "AgentPoolProfile list" where
  "mixedPools = [pool ''a'' [], pool ''b'' (subnetID ''s1'' ''rg1'' ''net1''), pool ''c'' []]"

definition defaultPools :: "AgentPoolProfile list" where
  "defaultPools = [pool ''a'' [], pool ''b'' [], pool ''c'' []]"

definition customPools :: "AgentPoolProfile list" where
  "customPools =
     [pool ''a'' (subnetID ''s1'' ''rg1'' ''net1''), pool ''b'' (subnetID ''s2'' ''rg2'' ''net2''),
      pool ''c'' (subnetID ''s3'' ''rg3'' ''net3'')]"

definition brokenPools :: "AgentPoolProfile list" where
  "brokenPools =
     [pool ''a'' (subnetID ''s1'' ''rg1'' ''net1''), pool ''b'' ''net2'', pool ''c'' ''net3'']"

definition fv :: "string \<Rightarrow> go_value \<Rightarrow> FieldError" where
  "fv ns v = \<lparr>Namespace = ns, Value = v\<rparr>"

definition keyed :: "string list \<Rightarrow> LinuxProfile" where
  "keyed ks = \<lparr>SSH = \<lparr>PublicKeys = map (\<lambda>k. \<lparr>KeyData = k\<rparr>) ks\<rparr>\<rparr>"

definition failingProps :: Properties where
  "failingProps =
     \<lparr>DNSPrefix = ''dns'',
      AgentPoolProfiles = [pool ''pool1'' [], pool ''Pool-1'' [], pool ''pool-3'' []],
      LinuxProfile = Some (keyed [[]])\<rparr>"

section \<open>The counting loop of \<open>validateVNET\<close>\<close>

lemma countCustomVNET_acc:
  "countCustomVNET ps (c, b) =
     (c + int (length (filter IsCustomVNET ps)), b \<or> list_ex IsCustomVNET ps)"
  by (induction ps arbitrary: c b) auto

lemma countCustomVNET_start:
  "countCustomVNET ps (0, False) =
     (int (length (filter IsCustomVNET ps)), list_ex IsCustomVNET ps)"
  by (simp add: countCustomVNET_acc)

lemma IsCustomVNET_eq: "IsCustomVNET = (\<lambda>p. VnetSubnetID p \<noteq> [])"
  by (simp add: IsCustomVNET_def fun_eq_iff)

lemma count_fst: "fst (countCustomVNET ps (0, False)) = int (customCount ps)"
  by (simp add: countCustomVNET_start customCount_def IsCustomVNET_eq)

lemma count_snd: "snd (countCustomVNET ps (0, False)) = (0 < customCount ps)"
proof -
  have "list_ex IsCustomVNET ps = (0 < length (filter IsCustomVNET ps))"
    by (induction ps) auto
  then show ?thesis
    by (simp add: countCustomVNET_start customCount_def IsCustomVNET_eq)
qed

text \<open>
  Claim C7. After the first loop of \<open>validateVNET\<close>, started as the code starts it
  with count 0 and flag false, the flag \<open>isCustomVNET\<close> is true exactly when
  \<open>customVNETCount\<close> is positive, and exactly when some pool of the collection has a
  non-empty \<open>VnetSubnetID\<close>.
\<close>

theorem isCustomVNET_iff_count_positive:
  "snd (countCustomVNET ps (0, False)) = (0 < fst (countCustomVNET ps (0, False))) \<and>
   snd (countCustomVNET ps (0, False)) = list_ex (\<lambda>p. VnetSubnetID p \<noteq> []) ps"
proof -
  have "(0 < length (filter IsCustomVNET ps)) = list_ex IsCustomVNET ps"
    by (induction ps) auto
  moreover have "list_ex IsCustomVNET ps = list_ex (\<lambda>p. VnetSubnetID p \<noteq> []) ps"
    by (induction ps) (auto simp: IsCustomVNET_def)
  ultimately show ?thesis
    by (simp add: countCustomVNET_start)
qed

theorem isCustomVNET_iff_count_positive_witness:
  "snd (countCustomVNET [pool ''a'' [], pool ''b'' ''/subscriptions/s''] (0, False)) \<and>
   0 < fst (countCustomVNET [pool ''a'' [], pool ''b'' ''/subscriptions/s''] (0, False))"
  using isCustomVNET_iff_count_positive [of "[pool ''a'' [], pool ''b'' ''/subscriptions/s'']"]
  by (simp add: pool_def IsCustomVNET_def)

section \<open>The empty collection\<close>

text \<open>
  Claim C10. For a \<open>Properties\<close> value whose collection of agent pool profiles is
  empty, \<open>validateUniqueProfileNames\<close> and \<open>validateVNET\<close> both return \<open>nil\<close>; the
  first loop of \<open>validateVNET\<close> ends with count 0, which is the number of pools, and
  with the flag false, so the second loop is not entered.
\<close>

theorem empty_collection_accepted:
  assumes "AgentPoolProfiles a = []"
  shows "validateUniqueProfileNames (AgentPoolProfiles a) = None \<and>
         countCustomVNET (AgentPoolProfiles a) (0, False) = (0, False) \<and>
         validateVNET d a = None"
  using assms by (simp add: validateUniqueProfileNames_def validateVNET_def)

theorem empty_collection_accepted_witness:
  "AgentPoolProfiles (props []) = [] \<and>
   validateUniqueProfileNames (AgentPoolProfiles (props [])) = None \<and>
   validateVNET sampleDeps (props []) = None"
  using empty_collection_accepted [of "props []" sampleDeps] by (simp add: props_def)

section \<open>Uniqueness of profile names: correctness\<close>

lemma uniqueLoop_None:
  "uniqueLoop seen ps = None \<longleftrightarrow>
     distinct (map Name ps) \<and> set (map Name ps) \<inter> dom seen = {}"
  by (induction ps arbitrary: seen) (auto split: option.splits)

lemma uniqueLoop_first:
  assumes "\<not> (distinct (map Name ps) \<and> set (map Name ps) \<inter> dom seen = {})"
  shows "\<exists>j<length ps.
           Name (ps ! j) \<in> dom seen \<union> set (map Name (take j ps)) \<and>
           distinct (map Name (take j ps)) \<and>
           set (map Name (take j ps)) \<inter> dom seen = {} \<and>
           uniqueLoop seen ps = Some (duplicateNameError (Name (ps ! j)))"
  using assms
proof (induction ps arbitrary: seen)
  case Nil
  then show ?case by simp
next
  case (Cons p ps)
  show ?case
  proof (cases "seen (Name p)")
    case (Some b)
    then have "Name p \<in> dom seen" by auto
    with Some show ?thesis by (intro exI [of _ 0]) simp
  next
    case None
    let ?seen = "seen(Name p \<mapsto> True)"
    from None Cons.prems
    have "\<not> (distinct (map Name ps) \<and> set (map Name ps) \<inter> dom ?seen = {})"
      by auto
    from Cons.IH [OF this] obtain j where j: "j < length ps"
      "Name (ps ! j) \<in> dom ?seen \<union> set (map Name (take j ps))"
      "distinct (map Name (take j ps))"
      "set (map Name (take j ps)) \<inter> dom ?seen = {}"
      "uniqueLoop ?seen ps = Some (duplicateNameError (Name (ps ! j)))"
      by blast
    from None have "Name p \<notin> dom seen" by auto
    with j None show ?thesis
      by (intro exI [of _ "Suc j"]) auto
  qed
qed

text \<open>
  Claim C5. \<open>validateUniqueProfileNames\<close> returns \<open>nil\<close> exactly when the names of the
  profiles are pairwise distinct. When they are not, it returns the error whose message
  is "profile name '\<open>n\<close>' already exists, profile names must be unique across pools",
  where \<open>n\<close> is the name of the profile at the first position \<open>j\<close> whose name already
  occurs before it: the names before \<open>j\<close> are pairwise distinct and the name at \<open>j\<close>
  is one of them.
\<close>

theorem validateUniqueProfileNames_correct:
  "(validateUniqueProfileNames ps = None \<longleftrightarrow> distinct (map Name ps)) \<and>
   (\<not> distinct (map Name ps) \<longrightarrow>
      (\<exists>j<length ps.
         Name (ps ! j) \<in> set (map Name (take j ps)) \<and>
         distinct (map Name (take j ps)) \<and>
         validateUniqueProfileNames ps =
           Some (Error (''profile name '' @ [CHR 0x27] @ Name (ps ! j) @ [CHR 0x27] @
                        '' already exists, profile names must be unique across pools''))))"
proof -
  have msg: "duplicateNameError n =
               Error (''profile name '' @ [CHR 0x27] @ n @ [CHR 0x27] @
                      '' already exists, profile names must be unique across pools'')" for n
    by (simp add: duplicateNameError_def quoted_def)
  have "validateUniqueProfileNames ps = None \<longleftrightarrow> distinct (map Name ps)"
    by (simp add: validateUniqueProfileNames_def uniqueLoop_None)
  moreover have "\<exists>j<length ps.
         Name (ps ! j) \<in> set (map Name (take j ps)) \<and>
         distinct (map Name (take j ps)) \<and>
         validateUniqueProfileNames ps = Some (duplicateNameError (Name (ps ! j)))"
    if "\<not> distinct (map Name ps)"
    using uniqueLoop_first [of ps Map.empty] that
    by (simp add: validateUniqueProfileNames_def)
  ultimately show ?thesis
    unfolding msg by blast
qed

theorem validateUniqueProfileNames_correct_witness:
  "\<not> distinct (map Name dupPools) \<and>
   (\<exists>j<length dupPools.
         Name (dupPools ! j) \<in> set (map Name (take j dupPools)) \<and>
         distinct (map Name (take j dupPools)) \<and>
         validateUniqueProfileNames dupPools =
           Some (Error (''profile name '' @ [CHR 0x27] @ Name (dupPools ! j) @ [CHR 0x27] @
                        '' already exists, profile names must be unique across pools''))) \<and>
   validateUniqueProfileNames dupPools =
     Some (Error (''profile name '' @ [CHR 0x27] @ ''beta'' @ [CHR 0x27] @
                  '' already exists, profile names must be unique across pools''))"
proof -
  have nd: "\<not> distinct (map Name dupPools)"
    by (simp add: dupPools_def pool_def)
  have "validateUniqueProfileNames dupPools =
          Some (Error (''profile name '' @ [CHR 0x27] @ ''beta'' @ [CHR 0x27] @
                       '' already exists, profile names must be unique across pools''))"
    by (simp add: validateUniqueProfileNames_def dupPools_def pool_def duplicateNameError_def
                  quoted_def)
  with nd validateUniqueProfileNames_correct [of dupPools] show ?thesis
    by blast
qed

section \<open>VNET consistency: correctness\<close>

lemma firstDecomposeFailure_Nil: "firstDecomposeFailure d [] = None"
  by (simp add: firstDecomposeFailure_def)

lemma firstDecomposeFailure_Cons:
  "firstDecomposeFailure d (p # ps) =
     (case decomposeFailure d p of Some e \<Rightarrow> Some e | None \<Rightarrow> firstDecomposeFailure d ps)"
  by (auto simp: firstDecomposeFailure_def split: option.splits)

lemma decomposeLoop_first:
  "(case decomposeLoop d ps m of Inl err \<Rightarrow> Some err | Inr _ \<Rightarrow> None) =
     firstDecomposeFailure d ps"
proof (induction ps arbitrary: m)
  case Nil
  show ?case by (simp add: firstDecomposeFailure_Nil)
next
  case (Cons p ps)
  show ?case
  proof (cases "GetVNETSubnetIDComponents d (VnetSubnetID p)")
    case (Inl err)
    then show ?thesis
      by (simp add: firstDecomposeFailure_Cons decomposeFailure_def)
  next
    case (Inr r)
    then show ?thesis
      by (cases r) (simp add: firstDecomposeFailure_Cons decomposeFailure_def Cons.IH)
  qed
qed

lemma firstDecomposeFailure_Some:
  "firstDecomposeFailure d ps = Some e \<Longrightarrow>
     \<exists>p\<in>set ps. GetVNETSubnetIDComponents d (VnetSubnetID p) = Inl e"
  by (induction ps)
     (auto simp: firstDecomposeFailure_Nil firstDecomposeFailure_Cons decomposeFailure_def
           split: option.splits sum.splits)

lemma firstDecomposeFailure_None:
  "list_all (\<lambda>p. \<not> isl (GetVNETSubnetIDComponents d (VnetSubnetID p))) ps \<Longrightarrow>
     firstDecomposeFailure d ps = None"
  by (induction ps)
     (auto simp: firstDecomposeFailure_Nil firstDecomposeFailure_Cons decomposeFailure_def
           split: option.splits sum.splits)

lemma firstDecomposeFailure_find:
  "firstDecomposeFailure d ps =
     (case find (\<lambda>p. isl (GetVNETSubnetIDComponents d (VnetSubnetID p))) ps of
        None \<Rightarrow> None
      | Some p \<Rightarrow> Some (projl (GetVNETSubnetIDComponents d (VnetSubnetID p))))"
  by (induction ps) (auto simp: firstDecomposeFailure_def decomposeFailure_def split: sum.splits)

lemma validateVNET_cases:
  "validateVNET d a =
     (if customCount (AgentPoolProfiles a) \<noteq> 0 \<and>
         customCount (AgentPoolProfiles a) \<noteq> length (AgentPoolProfiles a)
      then Some mixedVNETError
      else if 0 < customCount (AgentPoolProfiles a)
      then firstDecomposeFailure d (AgentPoolProfiles a)
      else None)"
proof -
  obtain c b where cb: "countCustomVNET (AgentPoolProfiles a) (0, False) = (c, b)"
    by (cases "countCustomVNET (AgentPoolProfiles a) (0, False)")
  from cb count_fst [of "AgentPoolProfiles a"]
  have c: "c = int (customCount (AgentPoolProfiles a))"
    by simp
  from cb count_snd [of "AgentPoolProfiles a"]
  have b: "b = (0 < customCount (AgentPoolProfiles a))"
    by simp
  show ?thesis
    unfolding validateVNET_def cb
    by (simp add: c b decomposeLoop_first)
qed

lemma customCount_samples:
  "customCount mixedPools = 1" "customCount defaultPools = 0" "customCount customPools = 3"
  "customCount brokenPools = 3"
  "length mixedPools = 3" "length defaultPools = 3" "length customPools = 3"
  "length brokenPools = 3"
  by (simp_all add: customCount_def mixedPools_def defaultPools_def customPools_def
        brokenPools_def pool_def subnetID_def)

lemma props_sel: "AgentPoolProfiles (props ps) = ps"
  by (simp add: props_def)

text \<open>
  Claim C1, as amended. Let \<open>n\<close> be the number of pools with a non-empty
  \<open>VnetSubnetID\<close>. When \<open>n\<close> is neither 0 nor the number of pools, \<open>validateVNET\<close>
  returns the error whose message is "Multiple VNET Subnet configurations specified.
  Each agent pool profile must all specify a custom VNET Subnet, or none at all"
  (two spaces after the first full stop). When \<open>n\<close> is 0 it returns \<open>nil\<close>; when \<open>n\<close>
  is the number of pools and every identifier decomposes it returns \<open>nil\<close>; and when
  \<open>n\<close> is 0 or the number of pools, any error it returns is the decomposer's error on
  the identifier of one of the pools.
\<close>

theorem validateVNET_all_or_nothing:
  "(customCount (AgentPoolProfiles a) \<noteq> 0 \<and>
    customCount (AgentPoolProfiles a) \<noteq> length (AgentPoolProfiles a) \<longrightarrow>
      validateVNET d a =
        Some (Error (''Multiple VNET Subnet configurations specified.  '' @
                     ''Each agent pool profile must all specify a custom VNET Subnet, or none at all''))) \<and>
   (customCount (AgentPoolProfiles a) = 0 \<longrightarrow> validateVNET d a = None) \<and>
   (customCount (AgentPoolProfiles a) = length (AgentPoolProfiles a) \<and>
    list_all (\<lambda>p. \<not> isl (GetVNETSubnetIDComponents d (VnetSubnetID p))) (AgentPoolProfiles a) \<longrightarrow>
      validateVNET d a = None) \<and>
   ((customCount (AgentPoolProfiles a) = 0 \<or>
     customCount (AgentPoolProfiles a) = length (AgentPoolProfiles a)) \<and>
    validateVNET d a = Some e \<longrightarrow>
      (\<exists>p\<in>set (AgentPoolProfiles a). GetVNETSubnetIDComponents d (VnetSubnetID p) = Inl e))"
  using firstDecomposeFailure_Some [of d "AgentPoolProfiles a" e]
        firstDecomposeFailure_None [of d "AgentPoolProfiles a"]
  by (auto simp: validateVNET_cases mixedVNETError_def split: if_splits)

theorem validateVNET_all_or_nothing_witness:
  "customCount (AgentPoolProfiles (props mixedPools)) = 1 \<and>
   length (AgentPoolProfiles (props mixedPools)) = 3 \<and>
   validateVNET sampleDeps (props mixedPools) =
     Some (Error (''Multiple VNET Subnet configurations specified.  '' @
                  ''Each agent pool profile must all specify a custom VNET Subnet, or none at all'')) \<and>
   customCount (AgentPoolProfiles (props defaultPools)) = 0 \<and>
   validateVNET sampleDeps (props defaultPools) = None \<and>
   customCount (AgentPoolProfiles (props customPools)) = 3 \<and>
   validateVNET sampleDeps (props customPools) = None"
proof -
  have dec: "list_all (\<lambda>p. \<not> isl (GetVNETSubnetIDComponents sampleDeps (VnetSubnetID p)))
               (AgentPoolProfiles (props customPools))"
    by (simp add: props_def customPools_def pool_def sampleDeps_def sampleDecompose_def
                  HasPrefix_def subnetID_def)
  from validateVNET_all_or_nothing [of "props mixedPools" sampleDeps]
       validateVNET_all_or_nothing [of "props defaultPools" sampleDeps]
       validateVNET_all_or_nothing [of "props customPools" sampleDeps] dec
  show ?thesis
    by (simp add: props_sel customCount_samples)
qed

theorem validateVNET_message_counterexample:
  "customCount (AgentPoolProfiles (props mixedPools)) = 1 \<and>
   length (AgentPoolProfiles (props mixedPools)) = 3 \<and>
   validateVNET sampleDeps (props mixedPools) \<noteq>
     Some (Error (''Multiple VNET Subnet configurations specified; '' @
                  ''each pool must specify a custom VNET Subnet, or none at all.'')) \<and>
   customCount (AgentPoolProfiles (props brokenPools)) = 3 \<and>
   length (AgentPoolProfiles (props brokenPools)) = 3 \<and>
   validateVNET sampleDeps (props brokenPools) = Some (Error ''cannot parse net2'')"
proof -
  have "validateVNET sampleDeps (props mixedPools) = Some mixedVNETError"
    by (simp add: validateVNET_cases props_sel customCount_samples)
  moreover have "validateVNET sampleDeps (props brokenPools) = Some (Error ''cannot parse net2'')"
    by (simp add: validateVNET_cases props_sel customCount_samples)
       (simp add: firstDecomposeFailure_def decomposeFailure_def brokenPools_def pool_def
                  sampleDeps_def sampleDecompose_def HasPrefix_def subnetID_def)
  ultimately show ?thesis
    by (simp add: props_sel customCount_samples mixedVNETError_def)
qed

text \<open>
  Claim C6. When the count of custom pools passes the all-or-nothing check and is
  positive, \<open>validateVNET\<close> returns the decomposer's error on the first pool, in
  collection order, whose identifier does not decompose, and \<open>nil\<close> when every
  identifier decomposes: the result depends on nothing else, in particular not on the
  components that the decomposer returns nor on the three counting maps.
\<close>

theorem validateVNET_phase2:
  assumes "customCount (AgentPoolProfiles a) = 0 \<or>
           customCount (AgentPoolProfiles a) = length (AgentPoolProfiles a)"
    and "0 < customCount (AgentPoolProfiles a)"
  shows "validateVNET d a =
           (case find (\<lambda>p. isl (GetVNETSubnetIDComponents d (VnetSubnetID p)))
                   (AgentPoolProfiles a) of
              None \<Rightarrow> None
            | Some p \<Rightarrow> Some (projl (GetVNETSubnetIDComponents d (VnetSubnetID p))))"
  using assms by (simp add: validateVNET_cases firstDecomposeFailure_find)

theorem validateVNET_phase2_witness:
  "customCount (AgentPoolProfiles (props customPools)) =
     length (AgentPoolProfiles (props customPools)) \<and>
   0 < customCount (AgentPoolProfiles (props customPools)) \<and>
   validateVNET sampleDeps (props customPools) = None \<and>
   customCount (AgentPoolProfiles (props brokenPools)) =
     length (AgentPoolProfiles (props brokenPools)) \<and>
   validateVNET sampleDeps (props brokenPools) = Some (Error ''cannot parse net2'')"
proof -
  from validateVNET_phase2 [of "props customPools" sampleDeps]
  have "validateVNET sampleDeps (props customPools) = None"
    by (simp add: props_sel customCount_samples)
       (simp add: customPools_def pool_def sampleDeps_def sampleDecompose_def HasPrefix_def
                  subnetID_def)
  moreover from validateVNET_phase2 [of "props brokenPools" sampleDeps]
  have "validateVNET sampleDeps (props brokenPools) = Some (Error ''cannot parse net2'')"
    by (simp add: props_sel customCount_samples)
       (simp add: brokenPools_def pool_def sampleDeps_def sampleDecompose_def HasPrefix_def
                  subnetID_def)
  ultimately show ?thesis
    by (simp add: props_sel customCount_samples)
qed

section \<open>Pool names: correctness\<close>

lemma repeatMatch_to_end:
  assumes m: "\<And>i t. m (i, t) = (case t of [] \<Rightarrow> [] | c # cs \<Rightarrow> if P c then [(Suc i, cs)] else [])"
  shows "(\<exists>j. (j, []) \<in> set (repeatMatch m 0 n (i, s))) \<longleftrightarrow> length s \<le> n \<and> list_all P s"
proof (induction n arbitrary: i s)
  case 0
  show ?case by auto
next
  case (Suc n)
  show ?case
  proof (cases s)
    case Nil
    then show ?thesis by (auto simp: m [of i "[]"])
  next
    case (Cons c cs)
    then show ?thesis
      by (auto simp: m [of i "c # cs"] Suc.IH)
  qed
qed

lemma class_to_end:
  "(\<exists>j. (j, []) \<in> set (repeatMatch (rmatch (CharClass rs)) 0 n (i, s))) \<longleftrightarrow>
     length s \<le> n \<and> list_all (inClass rs) s"
  by (rule repeatMatch_to_end [where P = "inClass rs" and m = "rmatch (CharClass rs)"]) simp

lemma EndText_filter:
  "concat (map (rmatch EndText) xs) \<noteq> [] \<longleftrightarrow> (\<exists>j. (j, []) \<in> set xs)"
proof (induction xs)
  case Nil
  show ?case by simp
next
  case (Cons x xs)
  obtain i t where x: "x = (i, t)" by (cases x)
  show ?case
  proof (cases "t = []")
    case True
    with x show ?thesis by auto
  next
    case False
    with x have "concat (map (rmatch EndText) (x # xs)) = concat (map (rmatch EndText) xs)"
      by simp
    moreover from False x have "(\<exists>j. (j, []) \<in> set (x # xs)) = (\<exists>j. (j, []) \<in> set xs)"
      by simp
    ultimately show ?thesis
      using Cons.IH by simp
  qed
qed

lemma poolNameRegex_at:
  "rmatch poolNameRegex (k, t) \<noteq> [] \<longleftrightarrow> k = 0 \<and> poolNameOK t"
proof (cases "k = 0")
  case False
  then show ?thesis by (simp add: poolNameRegex_def)
next
  case True
  let ?tail = "CharClass [(CHR ''a'', CHR ''z''), (CHR ''0'', CHR ''9'')]"
  let ?body = "Group (Concat (CharClass [(CHR ''a'', CHR ''z'')]) (Repeat ?tail 0 11))"
  have whole: "rmatch poolNameRegex (0, t) = concat (map (rmatch EndText) (rmatch ?body (0, t)))"
    by (simp add: poolNameRegex_def del: rmatch.simps(2,3,5,6))
  have body: "rmatch ?body (0, t) =
                (case t of [] \<Rightarrow> []
                 | c # cs \<Rightarrow> if isLower c then repeatMatch (rmatch ?tail) 0 11 (1, cs) else [])"
    by (auto simp: isLower_def split: list.splits)
  have cls: "inClass [(CHR ''a'', CHR ''z''), (CHR ''0'', CHR ''9'')] =
               (\<lambda>x. isLower x \<or> isDigit x)"
    by (rule ext) (simp add: isLower_def isDigit_def)
  have "rmatch poolNameRegex (0, t) \<noteq> [] \<longleftrightarrow> poolNameOK t"
  proof (cases t)
    case Nil
    then show ?thesis
      unfolding whole EndText_filter body by (simp add: poolNameOK_def)
  next
    case (Cons c cs)
    show ?thesis
    proof (cases "isLower c")
      case False
      with Cons show ?thesis
        unfolding whole EndText_filter body by (simp add: poolNameOK_def)
    next
      case True
      with Cons have "rmatch ?body (0, t) = repeatMatch (rmatch ?tail) 0 11 (1, cs)"
        unfolding body by simp
      then have "rmatch poolNameRegex (0, t) \<noteq> [] \<longleftrightarrow>
                   length cs \<le> 11 \<and> list_all (\<lambda>x. isLower x \<or> isDigit x) cs"
        unfolding whole EndText_filter by (simp only: class_to_end cls)
      with Cons True show ?thesis
        by (auto simp: poolNameOK_def)
    qed
  qed
  with True show ?thesis by simp
qed

lemma submatchCount_poolName:
  "submatchCount poolNameRegex s = (if poolNameOK s then 2 else 0)"
proof -
  have "list_ex (matchesAt poolNameRegex s) [0..<Suc (length s)] \<longleftrightarrow> poolNameOK s"
    unfolding list_ex_iff matchesAt_def poolNameRegex_at by auto
  moreover have "NumSubexp poolNameRegex = 1"
    by (simp add: poolNameRegex_def)
  ultimately show ?thesis
    by (simp add: submatchCount_def)
qed

lemma validatePoolName_cases:
  "validatePoolName s = (if poolNameOK s then None else Some (poolNameError s))"
  by (simp add: validatePoolName_def submatchCount_poolName)

text \<open>
  Claim C4. \<open>validatePoolName\<close> returns \<open>nil\<close> exactly on the strings that begin with
  a lowercase ASCII letter, continue with lowercase ASCII letters or digits only and
  have at most 12 characters, which are the strings that match
  \<open>^[a-z][a-z0-9]{0,11}$\<close>. On every other string it returns the error whose message
  quotes the string and restates the rule.
\<close>

theorem validatePoolName_correct:
  "validatePoolName s =
     (if poolNameOK s then None
      else Some (Error (''pool name '' @ [CHR 0x27] @ s @ [CHR 0x27] @
                        '' is invalid. A pool name must start with a lowercase letter, '' @
                        ''have max length of 12, and only have characters a-z0-9'')))"
  by (simp add: validatePoolName_cases poolNameError_def quoted_def)

theorem validatePoolName_correct_witness:
  "poolNameOK ''pool1'' \<and> validatePoolName ''pool1'' = None \<and>
   \<not> poolNameOK ''Pool-1'' \<and>
   validatePoolName ''Pool-1'' =
     Some (Error (''pool name '' @ [CHR 0x27] @ ''Pool-1'' @ [CHR 0x27] @
            '' is invalid. A pool name must start with a lowercase letter, '' @
            ''have max length of 12, and only have characters a-z0-9''))"
proof -
  have ok: "poolNameOK ''pool1''" and bad: "\<not> poolNameOK ''Pool-1''"
    by (simp_all add: poolNameOK_def isLower_def isDigit_def)
  from validatePoolName_correct [of "''pool1''"] validatePoolName_correct [of "''Pool-1''"] ok bad
  show ?thesis
    by simp
qed

section \<open>Linux profile: correctness\<close>

text \<open>
  Claim C8, as amended. When the list of SSH public keys has at least one entry,
  \<open>LinuxProfile.Validate\<close> returns an error exactly when the key data of the first
  entry is the empty string, and the error is the fixed message about \<open>KeyData\<close>;
  otherwise it returns \<open>nil\<close>. When the list is empty, the index expression
  \<open>PublicKeys[0]\<close> panics and no error is returned.
\<close>

theorem LinuxProfile_Validate_contract:
  "(PublicKeys (SSH l) \<noteq> [] \<longrightarrow>
      LinuxProfile_Validate l =
        Inr (if KeyData (hd (PublicKeys (SSH l))) = []
             then Some (Error ''KeyData in LinuxProfile.SSH.PublicKeys cannot be empty string'')
             else None)) \<and>
   (PublicKeys (SSH l) = [] \<longrightarrow> LinuxProfile_Validate l = Inl IndexOutOfRange)"
  by (simp add: LinuxProfile_Validate_def Var_required_fails_def keyDataError_def
           split: list.splits)

theorem LinuxProfile_Validate_contract_witness:
  "PublicKeys (SSH (keyed [[], ''ssh-rsa AAAA''])) \<noteq> [] \<and>
   LinuxProfile_Validate (keyed [[], ''ssh-rsa AAAA'']) =
     Inr (Some (Error ''KeyData in LinuxProfile.SSH.PublicKeys cannot be empty string'')) \<and>
   LinuxProfile_Validate (keyed [''ssh-rsa AAAA'', []]) = Inr None \<and>
   PublicKeys (SSH (keyed [])) = [] \<and>
   LinuxProfile_Validate (keyed []) = Inl IndexOutOfRange"
  using LinuxProfile_Validate_contract [of "keyed [[], ''ssh-rsa AAAA'']"]
        LinuxProfile_Validate_contract [of "keyed [''ssh-rsa AAAA'', []]"]
        LinuxProfile_Validate_contract [of "keyed []"]
  by (simp add: keyed_def)

theorem LinuxProfile_Validate_empty_counterexample:
  "PublicKeys (SSH (keyed [])) = [] \<and> LinuxProfile_Validate (keyed []) = Inl IndexOutOfRange"
  by (simp add: LinuxProfile_Validate_def keyed_def)

section \<open>Classification of the first violation: correctness\<close>

lemma HasSuffix_split:
  assumes "HasSuffix s suf"
  shows "s = take (length s - length suf) s @ suf"
proof -
  from assms have "drop (length s - length suf) s = suf"
    by (simp add: HasSuffix_def)
  then have "take (length s - length suf) s @ suf =
             take (length s - length suf) s @ drop (length s - length suf) s"
    by simp
  then show ?thesis
    by (simp only: append_take_drop_id)
qed

lemma HasSuffix_append: "HasSuffix (p @ suf) suf"
  by (simp add: HasSuffix_def)

lemma HasSuffix_rev:
  assumes "HasSuffix s suf" and "n \<le> length suf"
  shows "take n (rev s) = take n (rev suf)"
proof -
  from assms(1) obtain p where "s = p @ suf"
    using HasSuffix_split by blast
  then have "rev s = rev suf @ rev p"
    by simp
  with assms(2) show ?thesis by simp
qed

lemma HasSuffix_dot_VMSize: "HasSuffix ns ''.VMSize'' \<Longrightarrow> HasSuffix ns ''VMSize''"
proof -
  assume "HasSuffix ns ''.VMSize''"
  then obtain p where "ns = p @ ''.VMSize''"
    using HasSuffix_split by blast
  then have "ns = (p @ ''.'') @ ''VMSize''" by simp
  then show ?thesis
    by (simp only: HasSuffix_append)
qed

lemma HasSuffix_tag:
  "HasSuffix ns suf \<Longrightarrow> 2 \<le> length suf \<Longrightarrow> take 2 (rev ns) = take 2 (rev suf)"
  by (rule HasSuffix_rev)

text \<open>The last two characters tell the five suffixes of the classifier apart.\<close>

lemma suffix_tags:
  "HasSuffix ns ''.Name'' \<Longrightarrow> take 2 (rev ns) = ''em''"
  "HasSuffix ns ''VMSize'' \<Longrightarrow> take 2 (rev ns) = ''ez''"
  "HasSuffix ns ''.Count'' \<Longrightarrow> take 2 (rev ns) = ''tn''"
  "HasSuffix ns ''.OSDiskSizeGB'' \<Longrightarrow> take 2 (rev ns) = ''BG''"
  "HasSuffix ns ''.StorageProfile'' \<Longrightarrow> take 2 (rev ns) = ''el''"
  by (drule HasSuffix_tag, simp, simp)+

lemma credential_not_underPools: "ns \<in> set credentialNamespaces \<Longrightarrow> \<not> underPools ns"
  by (auto simp: credentialNamespaces_def underPools_def HasPrefix_def)

lemma handle_Cons:
  "handleValidationErrors d (err # rest) =
     (if Namespace err \<in> set credentialNamespaces
      then Inr (Some (missingError (Namespace err)))
      else if underPools (Namespace err)
      then (if HasSuffix (Namespace err) ''.Name'' \<or> HasSuffix (Namespace err) ''VMSize''
            then Inr (Some (missingError (Namespace err)))
            else if HasSuffix (Namespace err) ''.Count''
            then Inr (Some (countRangeError d))
            else if HasSuffix (Namespace err) ''.OSDiskSizeGB''
            then (case Value err of
                    IntV v \<Rightarrow> Inr (Some (diskSizeError d v))
                  | _ \<Rightarrow> Inl TypeAssertionFailed)
            else if HasSuffix (Namespace err) ''.StorageProfile''
            then (case Value err of
                    StringV v \<Rightarrow> Inr (Some (storageProfileError d v))
                  | _ \<Rightarrow> Inl TypeAssertionFailed)
            else Inr (Some (notCaughtError d (Namespace err) (err # rest))))
      else Inr (Some (notCaughtError d (Namespace err) (err # rest))))"
  unfolding handleValidationErrors_def Let_def credentialNamespaces_def underPools_def
  by simp

lemma handle_credential:
  "Namespace err \<in> set credentialNamespaces \<Longrightarrow>
     handleValidationErrors d (err # rest) = Inr (Some (missingError (Namespace err)))"
  by (simp only: handle_Cons if_True)

lemma handle_name:
  assumes "underPools (Namespace err)"
    and "HasSuffix (Namespace err) ''.Name'' \<or> HasSuffix (Namespace err) ''VMSize''"
  shows "handleValidationErrors d (err # rest) = Inr (Some (missingError (Namespace err)))"
  using assms by (simp add: handle_Cons)

lemma handle_count:
  assumes "underPools (Namespace err)" and "HasSuffix (Namespace err) ''.Count''"
  shows "handleValidationErrors d (err # rest) = Inr (Some (countRangeError d))"
proof -
  from assms(1) have "Namespace err \<notin> set credentialNamespaces"
    using credential_not_underPools by blast
  moreover from assms(2) have "\<not> HasSuffix (Namespace err) ''.Name''"
    "\<not> HasSuffix (Namespace err) ''VMSize''"
    by (auto dest!: suffix_tags)
  ultimately show ?thesis
    using assms by (simp only: handle_Cons if_True if_False simp_thms)
qed

lemma handle_disk:
  assumes "underPools (Namespace err)" and "HasSuffix (Namespace err) ''.OSDiskSizeGB''"
  shows "handleValidationErrors d (err # rest) =
           (case Value err of
              IntV v \<Rightarrow> Inr (Some (diskSizeError d v))
            | _ \<Rightarrow> Inl TypeAssertionFailed)"
proof -
  from assms(1) have "Namespace err \<notin> set credentialNamespaces"
    using credential_not_underPools by blast
  moreover from assms(2) have "\<not> HasSuffix (Namespace err) ''.Name''"
    "\<not> HasSuffix (Namespace err) ''VMSize''" "\<not> HasSuffix (Namespace err) ''.Count''"
    by (auto dest!: suffix_tags)
  ultimately show ?thesis
    using assms by (simp only: handle_Cons if_True if_False simp_thms)
qed

lemma handle_storage:
  assumes "underPools (Namespace err)" and "HasSuffix (Namespace err) ''.StorageProfile''"
  shows "handleValidationErrors d (err # rest) =
           (case Value err of
              StringV v \<Rightarrow> Inr (Some (storageProfileError d v))
            | _ \<Rightarrow> Inl TypeAssertionFailed)"
proof -
  from assms(1) have "Namespace err \<notin> set credentialNamespaces"
    using credential_not_underPools by blast
  moreover from assms(2) have "\<not> HasSuffix (Namespace err) ''.Name''"
    "\<not> HasSuffix (Namespace err) ''VMSize''" "\<not> HasSuffix (Namespace err) ''.Count''"
    "\<not> HasSuffix (Namespace err) ''.OSDiskSizeGB''"
    by (auto dest!: suffix_tags)
  ultimately show ?thesis
    using assms by (simp only: handle_Cons if_True if_False simp_thms)
qed

lemma handle_other:
  assumes "Namespace err \<notin> set credentialNamespaces"
    and "\<not> (underPools (Namespace err) \<and>
             (HasSuffix (Namespace err) ''.Name'' \<or> HasSuffix (Namespace err) ''VMSize'' \<or>
              HasSuffix (Namespace err) ''.Count'' \<or>
              HasSuffix (Namespace err) ''.OSDiskSizeGB'' \<or>
              HasSuffix (Namespace err) ''.StorageProfile''))"
  shows "handleValidationErrors d (err # rest) =
           Inr (Some (notCaughtError d (Namespace err) (err # rest)))"
  using assms by (simp only: handle_Cons split: if_splits) blast

lemma handle_never_nil: "handleValidationErrors d e \<noteq> Inr None"
proof (cases e)
  case Nil
  then show ?thesis by (simp add: handleValidationErrors_def)
next
  case (Cons err rest)
  show ?thesis
    unfolding Cons handle_Cons by (simp split: go_value.splits)
qed

lemma natDigits_small: "n < 10 \<Longrightarrow> natDigits n = [digitChar n]"
  by (simp add: natDigits.simps)

lemma natDigits_step:
  "\<not> n < 10 \<Longrightarrow> natDigits n = natDigits (n div 10) @ [digitChar (n mod 10)]"
  by (subst natDigits.simps) simp

lemma fmt_d_samples:
  "fmt_d 1 = ''1''" "fmt_d 100 = ''100''" "fmt_d 30 = ''30''" "fmt_d 1023 = ''1023''"
  "fmt_d 5000 = ''5000''"
  by (simp_all add: fmt_d_def natDigits_small natDigits_step digitChar_def)

lemma sampleDeps_sel:
  "MinAgentCount sampleDeps = 1" "MaxAgentCount sampleDeps = 100"
  "MinDiskSizeGB sampleDeps = 30" "MaxDiskSizeGB sampleDeps = 1023"
  "ManagedDisks sampleDeps = ''ManagedDisks''"
  "ValidationErrors_Error sampleDeps e = concat (map Namespace e)"
  by (simp_all add: sampleDeps_def)

lemma fv_sel: "Namespace (fv ns v) = ns" "Value (fv ns v) = v"
  by (simp_all add: fv_def)

text \<open>
  Claim C2, as amended. \<open>handleValidationErrors\<close> on a non-empty violation list looks
  at the namespace and the value of the first violation only, and the rest of the list
  enters the result only through the rendering of the whole list in the last case:
  \<^item> a namespace equal to one of \<open>Properties.ServicePrincipalProfile.ClientID\<close>,
    \<open>Properties.ServicePrincipalProfile.Secret\<close>,
    \<open>Properties.WindowsProfile.AdminUsername\<close>,
    \<open>Properties.WindowsProfile.AdminPassword\<close> gives "missing" and the namespace;
  \<^item> a namespace that begins with \<open>Properties.AgentPoolProfiles\<close> and ends with
    \<open>.Name\<close> or \<open>.VMSize\<close> gives "missing" and the namespace; one that ends with
    \<open>.Count\<close> gives the message with \<open>MinAgentCount\<close> and \<open>MaxAgentCount\<close>; one
    that ends with \<open>.OSDiskSizeGB\<close> and carries an \<open>int\<close> gives the message with
    that integer in decimal, \<open>MinDiskSizeGB\<close> and \<open>MaxDiskSizeGB\<close>; one that ends
    with \<open>.StorageProfile\<close> and carries a \<open>string\<close> gives the message with that
    string and \<open>ManagedDisks\<close>;
  \<^item> a namespace that is none of the four above and does not both begin with
    \<open>Properties.AgentPoolProfiles\<close> and end with one of \<open>.Name\<close>, \<open>VMSize\<close>,
    \<open>.Count\<close>, \<open>.OSDiskSizeGB\<close>, \<open>.StorageProfile\<close> gives the catch-all message
    with the namespace and the rendering of the whole violation list.
\<close>

theorem handleValidationErrors_policy:
  "(Namespace err \<in> {''Properties.ServicePrincipalProfile.ClientID'',
                      ''Properties.ServicePrincipalProfile.Secret'',
                      ''Properties.WindowsProfile.AdminUsername'',
                      ''Properties.WindowsProfile.AdminPassword''} \<longrightarrow>
      handleValidationErrors d (err # rest) =
        Inr (Some (Error (''missing '' @ Namespace err)))) \<and>
   (HasPrefix (Namespace err) ''Properties.AgentPoolProfiles'' \<and>
    (HasSuffix (Namespace err) ''.Name'' \<or> HasSuffix (Namespace err) ''.VMSize'') \<longrightarrow>
      handleValidationErrors d (err # rest) =
        Inr (Some (Error (''missing '' @ Namespace err)))) \<and>
   (HasPrefix (Namespace err) ''Properties.AgentPoolProfiles'' \<and>
    HasSuffix (Namespace err) ''.Count'' \<longrightarrow>
      handleValidationErrors d (err # rest) =
        Inr (Some (Error (''AgentPoolProfile count needs to be in the range ['' @
                          fmt_d (MinAgentCount d) @ '','' @ fmt_d (MaxAgentCount d) @ '']'')))) \<and>
   (HasPrefix (Namespace err) ''Properties.AgentPoolProfiles'' \<and>
    HasSuffix (Namespace err) ''.OSDiskSizeGB'' \<and> Value err = IntV n \<longrightarrow>
      handleValidationErrors d (err # rest) =
        Inr (Some (Error (''Invalid os disk size of '' @ fmt_d n @
                          '' specified.  The range of valid values are ['' @
                          fmt_d (MinDiskSizeGB d) @ '', '' @ fmt_d (MaxDiskSizeGB d) @ '']'')))) \<and>
   (HasPrefix (Namespace err) ''Properties.AgentPoolProfiles'' \<and>
    HasSuffix (Namespace err) ''.StorageProfile'' \<and> Value err = StringV s \<longrightarrow>
      handleValidationErrors d (err # rest) =
        Inr (Some (Error (''Unknown storageProfile '' @ [CHR 0x27] @ s @ [CHR 0x27] @
                          ''. Must specify '' @ ManagedDisks d)))) \<and>
   (Namespace err \<notin> {''Properties.ServicePrincipalProfile.ClientID'',
                      ''Properties.ServicePrincipalProfile.Secret'',
                      ''Properties.WindowsProfile.AdminUsername'',
                      ''Properties.WindowsProfile.AdminPassword''} \<and>
    \<not> (HasPrefix (Namespace err) ''Properties.AgentPoolProfiles'' \<and>
       (HasSuffix (Namespace err) ''.Name'' \<or> HasSuffix (Namespace err) ''VMSize'' \<or>
        HasSuffix (Namespace err) ''.Count'' \<or> HasSuffix (Namespace err) ''.OSDiskSizeGB'' \<or>
        HasSuffix (Namespace err) ''.StorageProfile'')) \<longrightarrow>
      handleValidationErrors d (err # rest) =
        Inr (Some (Error (''Namespace '' @ Namespace err @ '' is not caught, '' @
                          ValidationErrors_Error d (err # rest)))))"
proof -
  have cred: "{''Properties.ServicePrincipalProfile.ClientID'',
               ''Properties.ServicePrincipalProfile.Secret'',
               ''Properties.WindowsProfile.AdminUsername'',
               ''Properties.WindowsProfile.AdminPassword''} = set credentialNamespaces"
    by (simp add: credentialNamespaces_def)
  have pre: "HasPrefix (Namespace err) ''Properties.AgentPoolProfiles'' = underPools (Namespace err)"
    by (simp add: underPools_def)
  have 1: "Namespace err \<in> set credentialNamespaces \<longrightarrow>
      handleValidationErrors d (err # rest) =
        Inr (Some (Error (''missing '' @ Namespace err)))"
    by (simp add: handle_credential missingError_def)
  have 2: "underPools (Namespace err) \<and>
    (HasSuffix (Namespace err) ''.Name'' \<or> HasSuffix (Namespace err) ''.VMSize'') \<longrightarrow>
      handleValidationErrors d (err # rest) =
        Inr (Some (Error (''missing '' @ Namespace err)))"
    using handle_name [of err d rest] HasSuffix_dot_VMSize [of "Namespace err"]
    by (auto simp: missingError_def)
  have 3: "underPools (Namespace err) \<and> HasSuffix (Namespace err) ''.Count'' \<longrightarrow>
      handleValidationErrors d (err # rest) =
        Inr (Some (Error (''AgentPoolProfile count needs to be in the range ['' @
                          fmt_d (MinAgentCount d) @ '','' @ fmt_d (MaxAgentCount d) @ '']'')))"
    by (simp add: handle_count countRangeError_def)
  have 4: "underPools (Namespace err) \<and>
    HasSuffix (Namespace err) ''.OSDiskSizeGB'' \<and> Value err = IntV n \<longrightarrow>
      handleValidationErrors d (err # rest) =
        Inr (Some (Error (''Invalid os disk size of '' @ fmt_d n @
                          '' specified.  The range of valid values are ['' @
                          fmt_d (MinDiskSizeGB d) @ '', '' @ fmt_d (MaxDiskSizeGB d) @ '']'')))"
    by (simp add: handle_disk diskSizeError_def)
  have 5: "underPools (Namespace err) \<and>
    HasSuffix (Namespace err) ''.StorageProfile'' \<and> Value err = StringV s \<longrightarrow>
      handleValidationErrors d (err # rest) =
        Inr (Some (Error (''Unknown storageProfile '' @ [CHR 0x27] @ s @ [CHR 0x27] @
                          ''. Must specify '' @ ManagedDisks d)))"
    by (simp add: handle_storage storageProfileError_def quoted_def)
  have 6: "Namespace err \<notin> set credentialNamespaces \<and>
    \<not> (underPools (Namespace err) \<and>
       (HasSuffix (Namespace err) ''.Name'' \<or> HasSuffix (Namespace err) ''VMSize'' \<or>
        HasSuffix (Namespace err) ''.Count'' \<or> HasSuffix (Namespace err) ''.OSDiskSizeGB'' \<or>
        HasSuffix (Namespace err) ''.StorageProfile'')) \<longrightarrow>
      handleValidationErrors d (err # rest) =
        Inr (Some (Error (''Namespace '' @ Namespace err @ '' is not caught, '' @
                          ValidationErrors_Error d (err # rest))))"
    using handle_other [of err d rest] by (simp add: notCaughtError_def)
  show ?thesis
    unfolding cred pre using 1 2 3 4 5 6 by blast
qed

theorem handleValidationErrors_policy_witness:
  "handleValidationErrors sampleDeps
     [fv ''Properties.WindowsProfile.AdminPassword'' (StringV []),
      fv ''Properties.AgentPoolProfiles[0].Count'' (IntV 0)] =
     Inr (Some (Error ''missing Properties.WindowsProfile.AdminPassword'')) \<and>
   handleValidationErrors sampleDeps
     [fv ''Properties.AgentPoolProfiles[1].VMSize'' (StringV []),
      fv ''Properties.AgentPoolProfiles[1].Count'' (IntV 0)] =
     Inr (Some (Error ''missing Properties.AgentPoolProfiles[1].VMSize'')) \<and>
   handleValidationErrors sampleDeps [fv ''Properties.AgentPoolProfiles[2].Count'' (IntV 500)] =
     Inr (Some (Error ''AgentPoolProfile count needs to be in the range [1,100]'')) \<and>
   handleValidationErrors sampleDeps
     [fv ''Properties.AgentPoolProfiles[0].OSDiskSizeGB'' (IntV 5000)] =
     Inr (Some (Error (''Invalid os disk size of 5000 specified.  '' @
                       ''The range of valid values are [30, 1023]''))) \<and>
   handleValidationErrors sampleDeps
     [fv ''Properties.AgentPoolProfiles[0].StorageProfile'' (StringV ''Tape'')] =
     Inr (Some (Error (''Unknown storageProfile '' @ [CHR 0x27] @ ''Tape'' @ [CHR 0x27] @
                       ''. Must specify ManagedDisks''))) \<and>
   handleValidationErrors sampleDeps
     [fv ''Properties.DNSPrefix'' (StringV []),
      fv ''Properties.AgentPoolProfiles[0].Count'' (IntV 0)] =
     Inr (Some (Error (''Namespace Properties.DNSPrefix is not caught, '' @
                       ''Properties.DNSPrefixProperties.AgentPoolProfiles[0].Count'')))"
proof -
  note evals = fv_sel sampleDeps_sel fmt_d_samples HasPrefix_def HasSuffix_def
  show ?thesis
    using
      handleValidationErrors_policy [of "fv ''Properties.WindowsProfile.AdminPassword'' (StringV [])"
        sampleDeps "[fv ''Properties.AgentPoolProfiles[0].Count'' (IntV 0)]"]
      handleValidationErrors_policy [of "fv ''Properties.AgentPoolProfiles[1].VMSize'' (StringV [])"
        sampleDeps "[fv ''Properties.AgentPoolProfiles[1].Count'' (IntV 0)]"]
      handleValidationErrors_policy [of "fv ''Properties.AgentPoolProfiles[2].Count'' (IntV 500)"
        sampleDeps "[]"]
      handleValidationErrors_policy [of "fv ''Properties.AgentPoolProfiles[0].OSDiskSizeGB'' (IntV 5000)"
        sampleDeps "[]" 5000]
      handleValidationErrors_policy [of "fv ''Properties.AgentPoolProfiles[0].StorageProfile'' (StringV ''Tape'')"
        sampleDeps "[]" _ "''Tape''"]
      handleValidationErrors_policy [of "fv ''Properties.DNSPrefix'' (StringV [])"
        sampleDeps "[fv ''Properties.AgentPoolProfiles[0].Count'' (IntV 0)]"]
    by (simp add: evals)
qed

theorem handleValidationErrors_policy_counterexample:
  "handleValidationErrors sampleDeps
     [fv ''Properties.AgentPoolProfiles[1].StorageProfile'' (IntV 7)] =
     Inl TypeAssertionFailed \<and>
   handleValidationErrors sampleDeps
     [fv ''Properties.AgentPoolProfiles[0].OSVMSize'' (StringV [])] =
     Inr (Some (Error ''missing Properties.AgentPoolProfiles[0].OSVMSize''))"
  by (simp add: handleValidationErrors_def fv_def HasPrefix_def HasSuffix_def missingError_def)

text \<open>
  Claim C9, as amended. On a violation whose namespace begins with
  \<open>Properties.AgentPoolProfiles\<close> and ends with \<open>.OSDiskSizeGB\<close>, the classifier
  returns the disk-size error when the value is an \<open>int\<close>; on one that ends with
  \<open>.StorageProfile\<close> it returns the storage-profile error when the value is a
  \<open>string\<close>. On a value of any other dynamic type the type assertion panics and no
  error is returned.
\<close>

theorem handleValidationErrors_type_assertions:
  "(HasPrefix (Namespace err) ''Properties.AgentPoolProfiles'' \<and>
    HasSuffix (Namespace err) ''.OSDiskSizeGB'' \<longrightarrow>
      (case Value err of
         IntV n \<Rightarrow> handleValidationErrors d (err # rest) = Inr (Some (diskSizeError d n))
       | _ \<Rightarrow> handleValidationErrors d (err # rest) = Inl TypeAssertionFailed)) \<and>
   (HasPrefix (Namespace err) ''Properties.AgentPoolProfiles'' \<and>
    HasSuffix (Namespace err) ''.StorageProfile'' \<longrightarrow>
      (case Value err of
         StringV s \<Rightarrow> handleValidationErrors d (err # rest) = Inr (Some (storageProfileError d s))
       | _ \<Rightarrow> handleValidationErrors d (err # rest) = Inl TypeAssertionFailed))"
  using handle_disk [of err d rest] handle_storage [of err d rest]
  by (simp add: underPools_def split: go_value.splits)

theorem handleValidationErrors_type_assertions_witness:
  "handleValidationErrors sampleDeps
     [fv ''Properties.AgentPoolProfiles[0].OSDiskSizeGB'' (IntV 5000)] =
     Inr (Some (diskSizeError sampleDeps 5000)) \<and>
   handleValidationErrors sampleDeps
     [fv ''Properties.AgentPoolProfiles[0].OSDiskSizeGB'' NilV] = Inl TypeAssertionFailed \<and>
   handleValidationErrors sampleDeps
     [fv ''Properties.AgentPoolProfiles[1].StorageProfile'' (StringV ''Tape'')] =
     Inr (Some (storageProfileError sampleDeps ''Tape'')) \<and>
   handleValidationErrors sampleDeps
     [fv ''Properties.AgentPoolProfiles[1].StorageProfile'' (IntV 7)] = Inl TypeAssertionFailed"
  using
    handleValidationErrors_type_assertions
      [of "fv ''Properties.AgentPoolProfiles[0].OSDiskSizeGB'' (IntV 5000)" sampleDeps "[]"]
    handleValidationErrors_type_assertions
      [of "fv ''Properties.AgentPoolProfiles[0].OSDiskSizeGB'' NilV" sampleDeps "[]"]
    handleValidationErrors_type_assertions
      [of "fv ''Properties.AgentPoolProfiles[1].StorageProfile'' (StringV ''Tape'')" sampleDeps "[]"]
    handleValidationErrors_type_assertions
      [of "fv ''Properties.AgentPoolProfiles[1].StorageProfile'' (IntV 7)" sampleDeps "[]"]
  by (simp add: fv_sel HasPrefix_def HasSuffix_def)

theorem handleValidationErrors_panic_counterexample:
  "handleValidationErrors sampleDeps
     [fv ''Properties.AgentPoolProfiles[0].OSDiskSizeGB'' (StringV ''huge'')] =
     Inl TypeAssertionFailed"
  by (simp add: handleValidationErrors_def fv_def HasPrefix_def HasSuffix_def)

section \<open>The orchestrator: correctness\<close>

lemma firstFailure_pools:
  "firstFailure (map (\<lambda>p. Inr (validatePoolName (Name p))) ps @ rest) =
     (case poolsLoop ps of Some e \<Rightarrow> Inr (Some e) | None \<Rightarrow> firstFailure rest)"
  by (induction ps) (auto simp: AgentPoolProfile_Validate_def split: option.splits)

lemma firstFailure_all:
  "firstFailure xs = Inr None \<longleftrightarrow> list_all (\<lambda>x. x = Inr None) xs"
  by (induction xs) auto

text \<open>
  Claim C3. \<open>Properties.Validate\<close> returns the outcome of the first stage that does
  not succeed, unchanged, the stages being in this order: the struct validator with its
  violations classified by \<open>handleValidationErrors\<close>, the DNS-prefix check, the
  uniqueness check, the name check of each pool in collection order, the Linux-profile
  check when a Linux profile is present, and the VNET check. It returns \<open>nil\<close> exactly
  when every stage succeeds.
\<close>

theorem Properties_Validate_sequence:
  "Properties_Validate d a = firstFailure (stageOutcomes d a) \<and>
   (Properties_Validate d a = Inr None \<longleftrightarrow>
      list_all (\<lambda>x. x = Inr None) (stageOutcomes d a))"
proof -
  have "Properties_Validate d a = firstFailure (stageOutcomes d a)"
  proof (cases "validate_Struct d a")
    case (Some e)
    with handle_never_nil [of d e] show ?thesis
      by (simp add: Properties_Validate_def stageOutcomes_def)
  next
    case None
    then show ?thesis
      unfolding Properties_Validate_def stageOutcomes_def
      by (simp add: firstFailure_pools split: option.splits sum.splits)
  qed
  then show ?thesis
    by (simp add: firstFailure_all)
qed

theorem Properties_Validate_sequence_witness:
  "Properties_Validate sampleDeps failingProps = Inr (Some (poolNameError ''Pool-1'')) \<and>
   LinuxProfile_Validate (keyed [[]]) = Inr (Some keyDataError)"
proof -
  have names: "validatePoolName ''pool1'' = None"
    "validatePoolName ''Pool-1'' = Some (poolNameError ''Pool-1'')"
    by (simp_all add: validatePoolName_cases poolNameOK_def isLower_def isDigit_def)
  have unique: "validateUniqueProfileNames (AgentPoolProfiles failingProps) = None"
    by (simp add: validateUniqueProfileNames_def failingProps_def pool_def)
  have linux: "LinuxProfile_Validate (keyed [[]]) = Inr (Some keyDataError)"
    by (simp add: LinuxProfile_Validate_def keyed_def Var_required_fails_def)
  from Properties_Validate_sequence [of sampleDeps failingProps] names unique linux
  show ?thesis
    by (simp add: stageOutcomes_def failingProps_def sampleDeps_def pool_def)
qed

end
